theory Spec2Isabelle
  imports Main "HOL-Library.Sublist"
begin

section \<open>Call stack manager: a shallow embedding of openedx/core/lib/call_stack_manager.py\<close>

subsection \<open>Data model\<close>

text \<open>
  A frame is the tuple (file path, line number, context); all three components are the
  text slices the module cuts out of a formatted traceback line. A stack is a list of
  frames, and \<open>STACK_BOOK\<close> maps the name of a model class to the list of stacks seen.
\<close>

type_synonym frame = "string \<times> string \<times> string"

type_synonym stack = "frame list"

type_synonym stack_book = "string \<rightharpoonup> stack list"

text \<open>
  Exceptions. The module itself can only raise \<open>IndexError\<close> (a list index out of range
  in the list comprehension); \<open>Exception\<close> stands for whatever a wrapped callable raises.
\<close>

datatype exn = IndexError | Exception string

text \<open>The two calls of \<open>log.info\<close> in \<open>capture_call_stack\<close>.\<close>

datatype log_record = Info_new_call string | Info_book stack_book

text \<open>
  The module level variables \<open>STACK_BOOK\<close> and \<open>TRACK_FLAG\<close>, the records handed to the
  logger, and \<open>host\<close>: everything else of the process (the database of the persistence
  framework, for instance), which this module never touches.
\<close>

record 'h module_state =
  STACK_BOOK :: stack_book
  TRACK_FLAG :: bool
  log_info :: "log_record list"
  host :: 'h

text \<open>The state right after the module is imported.\<close>

definition initial :: "'h \<Rightarrow> 'h module_state" where
  "initial h = \<lparr>STACK_BOOK = Map.empty, TRACK_FLAG = True, log_info = [], host = h\<rparr>"

text \<open>
  A \<open>collections.defaultdict(list)\<close> read at a key: a missing key is first inserted with
  the empty list. The result is the value and the dictionary after the read.
\<close>

definition defaultdict_getitem :: "stack_book \<Rightarrow> string \<Rightarrow> stack list \<times> stack_book" where
  "defaultdict_getitem d k = (case d k of None \<Rightarrow> ([], d(k \<mapsto> [])) | Some v \<Rightarrow> (v, d))"

text \<open>The entry of a class as a reader sees it: the empty list when the key is absent.\<close>

definition entry :: "'h module_state \<Rightarrow> string \<Rightarrow> stack list" where
  "entry s k = (case STACK_BOOK s k of None \<Rightarrow> [] | Some v \<Rightarrow> v)"

subsection \<open>The string operations of Python that the module uses\<close>

text \<open>\<open>stack.replace("\n", "")\<close>: every newline character is removed.\<close>

definition replace_newline :: "string \<Rightarrow> string" where
  "replace_newline stack = filter (\<lambda>c. c \<noteq> CHR 0x0A) stack"

text \<open>\<open>frame.split(',')\<close>: the pieces between the separators, always at least one piece.\<close>

fun str_split :: "char \<Rightarrow> string \<Rightarrow> string list" where
  "str_split sep [] = [[]]"
| "str_split sep (c # cs) =
     (if c = sep then [] # str_split sep cs
      else (case str_split sep cs of
              [] \<Rightarrow> [[c]]
            | piece # pieces \<Rightarrow> (c # piece) # pieces))"

text \<open>The whitespace of a Python 2 byte string: blank, tab, newline, vertical tab, form feed, carriage return.\<close>

definition isspace :: "char \<Rightarrow> bool" where
  "isspace c = (c = CHR 0x20 \<or> c = CHR 0x09 \<or> c = CHR 0x0A \<or> c = CHR 0x0B \<or> c = CHR 0x0C \<or> c = CHR 0x0D)"

text \<open>\<open>s.strip()\<close>: leading and trailing whitespace removed.\<close>

definition str_strip :: "string \<Rightarrow> string" where
  "str_strip s = rev (dropWhile isspace (rev (dropWhile isspace s)))"

text \<open>\<open>xs[i]\<close> for a non-negative index: out of range raises \<open>IndexError\<close>.\<close>

definition getitem :: "'a list \<Rightarrow> nat \<Rightarrow> exn + 'a" where
  "getitem xs i = (if i < length xs then Inr (xs ! i) else Inl IndexError)"

text \<open>The slices \<open>s[i:]\<close> and \<open>s[i:-1]\<close>; a slice never raises.\<close>

definition slice_from :: "nat \<Rightarrow> string \<Rightarrow> string" where
  "slice_from i s = drop i s"

definition slice_from_to_last :: "nat \<Rightarrow> string \<Rightarrow> string" where
  "slice_from_to_last i s = drop i (butlast s)"

subsection \<open>Regular expressions\<close>

text \<open>
  The fragment of Python's regular expressions that \<open>EXCLUDE\<close> is written in: the anchors
  \<open>^\<close> and \<open>$\<close>, the dot, the dot under a star, and literal characters.
\<close>

datatype re_atom = Bol | Eol | Dot | DotStar | Lit char

fun re_compile :: "string \<Rightarrow> re_atom list" where
  "re_compile [] = []"
| "re_compile [c] =
     (if c = CHR ''^'' then [Bol] else if c = CHR ''$'' then [Eol]
      else if c = CHR ''.'' then [Dot] else [Lit c])"
| "re_compile (c # d # cs) =
     (if c = CHR ''^'' then Bol # re_compile (d # cs)
      else if c = CHR ''$'' then Eol # re_compile (d # cs)
      else if c = CHR ''.'' then
        (if d = CHR ''*'' then DotStar # re_compile cs else Dot # re_compile (d # cs))
      else Lit c # re_compile (d # cs))"

text \<open>
  \<open>match_here p at_start s\<close>: the pattern \<open>p\<close> matches a prefix of \<open>s\<close>; \<open>at_start\<close> says
  that no character of the subject has been consumed yet. Without flags, \<open>^\<close> matches at
  the start of the subject only, \<open>$\<close> at its end or before a final newline, and the dot
  matches every character but a newline.
\<close>

fun match_here :: "re_atom list \<Rightarrow> bool \<Rightarrow> string \<Rightarrow> bool" where
  "match_here [] at_start s = True"
| "match_here (Bol # p) at_start s = (at_start \<and> match_here p at_start s)"
| "match_here (Eol # p) at_start s = ((s = [] \<or> s = [CHR 0x0A]) \<and> match_here p at_start s)"
| "match_here (Dot # p) at_start [] = False"
| "match_here (Dot # p) at_start (c # cs) = (c \<noteq> CHR 0x0A \<and> match_here p False cs)"
| "match_here (Lit a # p) at_start [] = False"
| "match_here (Lit a # p) at_start (c # cs) = (c = a \<and> match_here p False cs)"
| "match_here (DotStar # p) at_start [] = match_here p at_start []"
| "match_here (DotStar # p) at_start (c # cs) =
     (match_here p at_start (c # cs) \<or> (c \<noteq> CHR 0x0A \<and> match_here (DotStar # p) False cs))"

text \<open>\<open>reg.match(frame)\<close>, read as a truth value: is there a match at the start of the frame.\<close>

definition re_match :: "re_atom list \<Rightarrow> string \<Rightarrow> bool" where
  "re_match reg frame = match_here reg True frame"

subsection \<open>The filter\<close>

definition EXCLUDE :: "string list" where
  "EXCLUDE = [''^.*python2.7.*$'', ''^.*call_stack_manager.*$'',
              ''^.*<exec_function>.*$'', ''^.*exec_code_object.*$'']"

definition REGULAR_EXPS :: "re_atom list list" where
  "REGULAR_EXPS = map re_compile EXCLUDE"

text \<open>\<open>any(reg.match(frame) for reg in REGULAR_EXPS)\<close>\<close>

definition any_match :: "string \<Rightarrow> bool" where
  "any_match frame = list_ex (\<lambda>reg. re_match reg frame) REGULAR_EXPS"

subsection \<open>\<open>capture_call_stack\<close>\<close>

text \<open>
  The tuple the comprehension builds from one frame. The three indexings are evaluated in
  order, and the second or the third raises when the frame has fewer than two commas.
\<close>

definition frame_tuple :: "string \<Rightarrow> exn + frame" where
  "frame_tuple frame =
     (case getitem (str_split CHR '','' frame) 0 of
        Inl e \<Rightarrow> Inl e
      | Inr p0 \<Rightarrow>
          (case getitem (str_split CHR '','' frame) 1 of
             Inl e \<Rightarrow> Inl e
           | Inr p1 \<Rightarrow>
               (case getitem (str_split CHR '','' frame) 2 of
                  Inl e \<Rightarrow> Inl e
                | Inr p2 \<Rightarrow>
                    Inr (slice_from_to_last 6 (str_strip p0),
                         slice_from 6 (str_strip p1),
                         slice_from 3 (str_strip p2)))))"

text \<open>The number of commas in a frame: \<open>frame.split(',')\<close> has one piece more.\<close>

definition commas :: "string \<Rightarrow> nat" where
  "commas s = length (filter (\<lambda>c. c = CHR '','') s)"

text \<open>
  The list comprehension over the frames (newlines already removed): a frame that some
  expression matches is skipped, every other frame is turned into its tuple, and the first
  exception ends the comprehension.
\<close>

fun comprehension :: "string list \<Rightarrow> exn + stack" where
  "comprehension [] = Inr []"
| "comprehension (frame # frames) =
     (if \<not> any_match frame then
        (case frame_tuple frame of
           Inl e \<Rightarrow> Inl e
         | Inr t \<Rightarrow> (case comprehension frames of Inl e \<Rightarrow> Inl e | Inr ts \<Rightarrow> Inr (t # ts)))
      else comprehension frames)"

text \<open>
  \<open>temp_call_stack\<close>, from the list \<open>format_stack\<close> that \<open>traceback.format_stack()\<close> returned.
\<close>

definition temp_call_stack :: "string list \<Rightarrow> exn + stack" where
  "temp_call_stack format_stack = comprehension (map replace_newline format_stack)"

text \<open>
  The statements after the comprehension: the membership test on
  \<open>STACK_BOOK[current_model]\<close> and, when the stack is not there, the append and the two
  log records. The truth value returned is that of the test, which is True exactly when
  the stack is appended and logged as new.
\<close>

definition ledger_record :: "string \<Rightarrow> stack \<Rightarrow> 'h module_state \<Rightarrow> bool \<times> 'h module_state" where
  "ledger_record current_model temp s =
     (case defaultdict_getitem (STACK_BOOK s) current_model of
        (seen, book1) \<Rightarrow>
          if temp \<notin> set seen then
            (case defaultdict_getitem book1 current_model of
               (stacks, book2) \<Rightarrow>
                 (True, s\<lparr>STACK_BOOK := book2(current_model \<mapsto> stacks @ [temp]),
                           log_info := log_info s @
                             [Info_new_call current_model,
                              Info_book (book2(current_model \<mapsto> stacks @ [temp]))]\<rparr>))
          else (False, s\<lparr>STACK_BOOK := book1\<rparr>))"

text \<open>
  \<open>capture_call_stack(current_model)\<close>. The value of \<open>traceback.format_stack()\<close> is a
  parameter. The function returns \<open>None\<close> (here the unit value) or raises, and
  \<open>TRACK_FLAG\<close> is not read anywhere in its body.
\<close>

definition capture_call_stack ::
  "string \<Rightarrow> string list \<Rightarrow> 'h module_state \<Rightarrow> (exn + unit) \<times> 'h module_state" where
  "capture_call_stack current_model format_stack s =
     (case temp_call_stack format_stack of
        Inl e \<Rightarrow> (Inl e, s)
      | Inr temp \<Rightarrow> (Inr (), snd (ledger_record current_model temp s)))"

subsection \<open>The adapters\<close>

text \<open>
  \<open>CallStackMixin.save\<close> and \<open>delete\<close>, and \<open>CallStackManager.get_query_set\<close>.
  \<open>type_self\<close> is \<open>str(type(self))\<close> (\<open>str(self.model)\<close> for the manager), and the method
  of the superclass is a parameter: any function of the arguments and the state that
  returns a value or raises.
\<close>

definition CallStackMixin_save ::
  "string \<Rightarrow> string list \<Rightarrow> ('a \<Rightarrow> 'h module_state \<Rightarrow> (exn + 'v) \<times> 'h module_state) \<Rightarrow>
   'a \<Rightarrow> 'h module_state \<Rightarrow> (exn + 'v) \<times> 'h module_state" where
  "CallStackMixin_save type_self format_stack super_save args s =
     (case capture_call_stack type_self format_stack s of
        (Inl e, s1) \<Rightarrow> (Inl e, s1)
      | (Inr u, s1) \<Rightarrow> super_save args s1)"

definition CallStackMixin_delete ::
  "string \<Rightarrow> string list \<Rightarrow> ('a \<Rightarrow> 'h module_state \<Rightarrow> (exn + 'v) \<times> 'h module_state) \<Rightarrow>
   'a \<Rightarrow> 'h module_state \<Rightarrow> (exn + 'v) \<times> 'h module_state" where
  "CallStackMixin_delete type_self format_stack super_delete args s =
     (case capture_call_stack type_self format_stack s of
        (Inl e, s1) \<Rightarrow> (Inl e, s1)
      | (Inr u, s1) \<Rightarrow> super_delete args s1)"

definition CallStackManager_get_query_set ::
  "string \<Rightarrow> string list \<Rightarrow> ('h module_state \<Rightarrow> (exn + 'v) \<times> 'h module_state) \<Rightarrow>
   'h module_state \<Rightarrow> (exn + 'v) \<times> 'h module_state" where
  "CallStackManager_get_query_set self_model format_stack super_get_query_set s =
     (case capture_call_stack self_model format_stack s of
        (Inl e, s1) \<Rightarrow> (Inl e, s1)
      | (Inr u, s1) \<Rightarrow> super_get_query_set s1)"

subsection \<open>\<open>donottrack\<close>\<close>

text \<open>
  \<open>wrapper_func\<close>: the flag is set to False, \<open>func\<close> is called, and the assignment of True
  is the statement after the call, so it is reached only when the call returns. The
  wrapper has no return statement: its value is Python's \<open>None\<close>, here \<open>None\<close> of the
  option type, where \<open>Some v\<close> would be the value \<open>v\<close> of \<open>func\<close>.
\<close>

definition wrapper_func ::
  "('a \<Rightarrow> 'h module_state \<Rightarrow> (exn + 'r) \<times> 'h module_state) \<Rightarrow>
   'a \<Rightarrow> 'h module_state \<Rightarrow> (exn + 'r option) \<times> 'h module_state" where
  "wrapper_func func args s =
     (case func args (s\<lparr>TRACK_FLAG := False\<rparr>) of
        (Inl e, s1) \<Rightarrow> (Inl e, s1)
      | (Inr r, s1) \<Rightarrow> (Inr None, s1\<lparr>TRACK_FLAG := True\<rparr>))"

definition donottrack ::
  "('a \<Rightarrow> 'h module_state \<Rightarrow> (exn + 'r) \<times> 'h module_state) \<Rightarrow>
   'a \<Rightarrow> 'h module_state \<Rightarrow> (exn + 'r option) \<times> 'h module_state" where
  "donottrack func = wrapper_func func"

subsection \<open>The layout of a formatted frame\<close>

text \<open>
  Modelled from the spec: the stack introspection facility (\<open>traceback.format_stack\<close> of
  Python's library, which is not part of this repository) returns one text per frame in
  the fixed layout File "<path>", line <n>, in <context>. Python writes it with two
  leading blanks and a final newline; the source text that Python appends on a second
  line is part of \<open>context\<close> here.
\<close>

definition format_frame :: "string \<Rightarrow> string \<Rightarrow> string \<Rightarrow> string" where
  "format_frame path n context =
     ''  File '' @ [CHR 0x22] @ path @ [CHR 0x22] @ '', line '' @ n @ '', in '' @ context @ [CHR 0x0A]"

subsection \<open>Callers\<close>

text \<open>
  A sequence of calls of \<open>capture_call_stack\<close>, each with its class name and the formatted
  stack of its call site; a call that raises leaves the state as it was.
\<close>

fun captures :: "(string \<times> string list) list \<Rightarrow> 'h module_state \<Rightarrow> 'h module_state" where
  "captures [] s = s"
| "captures ((current_model, format_stack) # calls) s =
     captures calls (snd (capture_call_stack current_model format_stack s))"

text \<open>A function body that calls \<open>f\<close> and, when that returns, returns what \<open>g\<close> returns.\<close>

definition then_call ::
  "('a \<Rightarrow> 'h module_state \<Rightarrow> (exn + 'r) \<times> 'h module_state) \<Rightarrow>
   ('a \<Rightarrow> 'h module_state \<Rightarrow> (exn + 'q) \<times> 'h module_state) \<Rightarrow>
   'a \<Rightarrow> 'h module_state \<Rightarrow> (exn + 'q) \<times> 'h module_state" where
  "then_call f g args s = (case f args s of (Inl e, s1) \<Rightarrow> (Inl e, s1) | (Inr r, s1) \<Rightarrow> g args s1)"

text \<open>Example callables: one that raises, one that returns its argument, one that writes
  the flag it sees into the host state, and one that calls \<open>capture_call_stack\<close> for the
  class Widget from a fixed call site.\<close>

definition raising_func :: "nat \<Rightarrow> 'h module_state \<Rightarrow> (exn + nat) \<times> 'h module_state" where
  "raising_func args s = (Inl (Exception ''boom''), s)"

definition returning_func :: "nat \<Rightarrow> 'h module_state \<Rightarrow> (exn + nat) \<times> 'h module_state" where
  "returning_func args s = (Inr args, s)"

definition flag_probe :: "nat \<Rightarrow> bool module_state \<Rightarrow> (exn + nat) \<times> bool module_state" where
  "flag_probe args s = (Inr args, s\<lparr>host := TRACK_FLAG s\<rparr>)"

definition widget_site :: "string list" where
  "widget_site = [format_frame ''/lms/models.py'' ''42'' ''save'']"

definition tracked_func :: "nat \<Rightarrow> 'h module_state \<Rightarrow> (exn + unit) \<times> 'h module_state" where
  "tracked_func args s = capture_call_stack ''Widget'' widget_site s"

text \<open>Example methods of a superclass: one stores its argument in the host state and
  returns a value, one raises.\<close>

definition storing_method :: "nat \<Rightarrow> nat list module_state \<Rightarrow> (exn + nat) \<times> nat list module_state" where
  "storing_method args s = (Inr (Suc args), s\<lparr>host := args # host s\<rparr>)"

definition failing_method :: "nat \<Rightarrow> nat list module_state \<Rightarrow> (exn + nat) \<times> nat list module_state" where
  "failing_method args s = (Inl (Exception ''database''), s)"

text \<open>A formatted stack with one line that is not in the layout of a frame.\<close>

definition malformed_site :: "string list" where
  "malformed_site = [''not a frame line'']"

text \<open>A formatted stack of three frames whose middle frame is in the library of the
  interpreter, and one whose frames are all matched by an expression of \<open>EXCLUDE\<close>.\<close>

definition three_frames :: "string list" where
  "three_frames = [format_frame ''/lms/a.py'' ''7'' ''f'',
                   format_frame ''/usr/lib/python2.7/x.py'' ''10'' ''g'',
                   format_frame ''/lms/b.py'' ''123'' ''h'']"

definition excluded_only :: "string list" where
  "excluded_only = [format_frame ''/lib/call_stack_manager.py'' ''95'' ''save'',
                    format_frame ''/usr/lib/python2.7/x.py'' ''10'' ''g'']"

subsection \<open>Predicates on the ledger\<close>

text \<open>No entry holds two equal stacks.\<close>

definition ledger_distinct :: "'h module_state \<Rightarrow> bool" where
  "ledger_distinct s = (\<forall>k. distinct (entry s k))"

text \<open>Every entry of the first state is an initial segment of the entry of the second:
  stacks are only appended, none is removed or moved.\<close>

definition ledger_grows :: "'h module_state \<Rightarrow> 'h module_state \<Rightarrow> bool" where
  "ledger_grows s s' = (\<forall>k. prefix (entry s k) (entry s' k))"

text \<open>The value a callable returns or raises does not depend on the ledger or the log.\<close>

definition ledger_blind :: "('h module_state \<Rightarrow> (exn + 'v) \<times> 'h module_state) \<Rightarrow> bool" where
  "ledger_blind f = (\<forall>t u. host t = host u \<and> TRACK_FLAG t = TRACK_FLAG u \<longrightarrow> fst (f t) = fst (f u))"

text \<open>
  Modelled from the spec: the formatted stack that the stack introspection facility
  returns for a list of frames, oldest caller first, each given by its path, line number
  text and context.
\<close>

definition format_list :: "(string \<times> string \<times> string) list \<Rightarrow> string list" where
  "format_list frames = map (\<lambda>(path, n, context). format_frame path n context) frames"

section \<open>Properties\<close>

subsection \<open>The ledger\<close>

lemma ledger_record_new:
  "t \<notin> set (entry s c) \<Longrightarrow>
   ledger_record c t s =
     (True, s\<lparr>STACK_BOOK := (STACK_BOOK s)(c \<mapsto> entry s c @ [t]),
               log_info := log_info s @
                 [Info_new_call c, Info_book ((STACK_BOOK s)(c \<mapsto> entry s c @ [t]))]\<rparr>)"
  by (simp add: ledger_record_def defaultdict_getitem_def entry_def split: option.splits)

lemma ledger_record_dup: "t \<in> set (entry s c) \<Longrightarrow> ledger_record c t s = (False, s)"
  by (cases "STACK_BOOK s c") (simp_all add: ledger_record_def defaultdict_getitem_def entry_def)

lemma entry_ledger_record:
  "entry (snd (ledger_record c t s)) k =
     (if k = c \<and> t \<notin> set (entry s c) then entry s c @ [t] else entry s k)"
proof (cases "t \<in> set (entry s c)")
  case True
  then show ?thesis by (simp add: ledger_record_dup)
next
  case False
  then show ?thesis by (simp add: ledger_record_new entry_def)
qed

lemma fst_ledger_record: "fst (ledger_record c t s) = (t \<notin> set (entry s c))"
  by (cases "t \<in> set (entry s c)") (simp_all add: ledger_record_dup ledger_record_new)

lemma ledger_record_frame:
  "TRACK_FLAG (snd (ledger_record c t s)) = TRACK_FLAG s \<and> host (snd (ledger_record c t s)) = host s"
  by (cases "t \<in> set (entry s c)") (simp_all add: ledger_record_dup ledger_record_new)

lemma ledger_record_again:
  "ledger_record c t (snd (ledger_record c t s)) = (False, snd (ledger_record c t s))"
  by (rule ledger_record_dup) (simp add: entry_ledger_record)

text \<open>
  C3 (idempotent dedup). When the stack \<open>S\<close> is not yet in the entry of the class \<open>C\<close>,
  the first of two calls of the record step with \<open>C\<close> and \<open>S\<close> reports new, the second
  reports a duplicate and changes nothing, and afterwards exactly one element of the
  entry of \<open>C\<close> equals \<open>S\<close>. From any ledger at all the first call reports new exactly when
  \<open>S\<close> was not recorded before, and the second call reports a duplicate. The scenario:
  from a ledger without stacks for Widget, recording [FrameA, FrameB], again
  [FrameA, FrameB], then [FrameA] reports true, false, true and leaves the entry
  [[FrameA, FrameB], [FrameA]].
\<close>

theorem record_idempotent:
  "(S \<notin> set (entry s C) \<longrightarrow>
      (let (r1, s1) = ledger_record C S s; (r2, s2) = ledger_record C S s1
       in r1 \<and> \<not> r2 \<and> s2 = s1 \<and> count_list (entry s2 C) S = 1)) \<and>
   (let (r1, s1) = ledger_record C S s; (r2, s2) = ledger_record C S s1
    in r1 = (S \<notin> set (entry s C)) \<and> \<not> r2 \<and> s2 = s1) \<and>
   (entry s ''Widget'' = [] \<longrightarrow>
      (let (r1, s1) = ledger_record ''Widget'' [FrameA, FrameB] s;
           (r2, s2) = ledger_record ''Widget'' [FrameA, FrameB] s1;
           (r3, s3) = ledger_record ''Widget'' [FrameA] s2
       in r1 \<and> \<not> r2 \<and> r3 \<and> entry s3 ''Widget'' = [[FrameA, FrameB], [FrameA]]))"
proof (intro conjI impI)
  assume new: "S \<notin> set (entry s C)"
  have "count_list (entry (snd (ledger_record C S s)) C) S = 1"
    using new by (simp add: entry_ledger_record)
  then show "let (r1, s1) = ledger_record C S s; (r2, s2) = ledger_record C S s1
       in r1 \<and> \<not> r2 \<and> s2 = s1 \<and> count_list (entry s2 C) S = 1"
    using new by (simp add: case_prod_beta ledger_record_again fst_ledger_record entry_ledger_record)
next
  show "let (r1, s1) = ledger_record C S s; (r2, s2) = ledger_record C S s1
    in r1 = (S \<notin> set (entry s C)) \<and> \<not> r2 \<and> s2 = s1"
    by (simp add: case_prod_beta ledger_record_again fst_ledger_record entry_ledger_record)
next
  assume empty: "entry s ''Widget'' = []"
  show "let (r1, s1) = ledger_record ''Widget'' [FrameA, FrameB] s;
           (r2, s2) = ledger_record ''Widget'' [FrameA, FrameB] s1;
           (r3, s3) = ledger_record ''Widget'' [FrameA] s2
       in r1 \<and> \<not> r2 \<and> r3 \<and> entry s3 ''Widget'' = [[FrameA, FrameB], [FrameA]]"
    using empty
    by (simp add: case_prod_beta ledger_record_again fst_ledger_record entry_ledger_record)
qed

text \<open>The scenario of C3 on two concrete frames, from the state of a fresh process.\<close>

theorem record_idempotent_witness:
  "[(''a.py'', ''1'', ''f''), (''b.py'', ''2'', ''g'')] \<notin> set (entry (initial ()) ''Widget'') \<and>
   entry (initial ()) ''Widget'' = [] \<and>
   (let (r1, s1) = ledger_record ''Widget'' [(''a.py'', ''1'', ''f''), (''b.py'', ''2'', ''g'')] (initial ());
        (r2, s2) = ledger_record ''Widget'' [(''a.py'', ''1'', ''f''), (''b.py'', ''2'', ''g'')] s1
    in r1 \<and> \<not> r2 \<and> s2 = s1 \<and>
       count_list (entry s2 ''Widget'') [(''a.py'', ''1'', ''f''), (''b.py'', ''2'', ''g'')] = 1) \<and>
   (let (r1, s1) = ledger_record ''Widget'' [(''a.py'', ''1'', ''f''), (''b.py'', ''2'', ''g'')] (initial ());
        (r2, s2) = ledger_record ''Widget'' [(''a.py'', ''1'', ''f''), (''b.py'', ''2'', ''g'')] s1;
        (r3, s3) = ledger_record ''Widget'' [(''a.py'', ''1'', ''f'')] s2
    in r1 \<and> \<not> r2 \<and> r3 \<and>
       entry s3 ''Widget'' = [[(''a.py'', ''1'', ''f''), (''b.py'', ''2'', ''g'')], [(''a.py'', ''1'', ''f'')]])"
proof -
  have fresh: "entry (initial ()) ''Widget'' = []"
    by (simp add: entry_def initial_def)
  then have new: "[(''a.py'', ''1'', ''f''), (''b.py'', ''2'', ''g'')] \<notin> set (entry (initial ()) ''Widget'')"
    by simp
  from record_idempotent [of "[(''a.py'', ''1'', ''f''), (''b.py'', ''2'', ''g'')]" "initial ()" "''Widget''"
      "(''a.py'', ''1'', ''f'')" "(''b.py'', ''2'', ''g'')"] fresh new
  show ?thesis by blast
qed

subsection \<open>Evaluating the comprehension on a concrete call site\<close>

lemmas eval_defs = temp_call_stack_def format_frame_def replace_newline_def any_match_def
  REGULAR_EXPS_def EXCLUDE_def re_match_def frame_tuple_def getitem_def str_strip_def
  isspace_def slice_from_def slice_from_to_last_def

lemma widget_site_stack:
  "temp_call_stack widget_site = Inr [(''/lms/models.py'', ''2'', ''save'')]"
  by (simp add: widget_site_def eval_defs)

text \<open>
  C1 (the gate). The claim is that \<open>capture_call_stack\<close> does nothing while \<open>TRACK_FLAG\<close>
  is False. The function never reads the flag: called with the flag False and an empty
  \<open>STACK_BOOK\<close>, it returns normally and the entry of Widget holds the stack of the call
  site; the same happens when the call is made by a function that \<open>donottrack\<close> wraps.
\<close>

theorem capture_ignores_track_flag:
  "\<not> TRACK_FLAG ((initial ())\<lparr>TRACK_FLAG := False\<rparr>) \<and>
   STACK_BOOK ((initial ())\<lparr>TRACK_FLAG := False\<rparr>) ''Widget'' = None \<and>
   fst (capture_call_stack ''Widget'' widget_site ((initial ())\<lparr>TRACK_FLAG := False\<rparr>)) = Inr () \<and>
   STACK_BOOK (snd (capture_call_stack ''Widget'' widget_site ((initial ())\<lparr>TRACK_FLAG := False\<rparr>))) ''Widget''
     = Some [[(''/lms/models.py'', ''2'', ''save'')]] \<and>
   STACK_BOOK (snd (donottrack tracked_func 0 (initial ()))) ''Widget''
     = Some [[(''/lms/models.py'', ''2'', ''save'')]]"
  by (simp add: capture_call_stack_def widget_site_stack ledger_record_def defaultdict_getitem_def
      initial_def donottrack_def wrapper_func_def tracked_func_def)

text \<open>
  C6 (the three fields). The claim is that the second component of the frame is the line
  number as captured. For the frame of /lms/models.py, line 42, in save, which no
  expression of \<open>EXCLUDE\<close> matches, the path and the context come out as written, and the
  line number comes out as 2: the slice \<open>[6:]\<close> of the stripped piece \<open>line 42\<close> starts one
  character after the blank, so the first digit is lost.
\<close>

theorem line_number_truncated:
  "\<not> any_match (replace_newline (format_frame ''/lms/models.py'' ''42'' ''save'')) \<and>
   frame_tuple (replace_newline (format_frame ''/lms/models.py'' ''42'' ''save''))
     = Inr (''/lms/models.py'', ''2'', ''save'') \<and>
   temp_call_stack [format_frame ''/lms/models.py'' ''42'' ''save'']
     = Inr [(''/lms/models.py'', ''2'', ''save'')]"
  by (simp add: eval_defs)

subsection \<open>The decorator\<close>

text \<open>
  C9 (the wrapper returns None). Whenever the wrapped function returns normally, with
  whatever value \<open>r\<close>, the wrapper that \<open>donottrack\<close> builds returns \<open>None\<close>.
\<close>

theorem wrapper_returns_None:
  "func args (s\<lparr>TRACK_FLAG := False\<rparr>) = (Inr r, s1) \<Longrightarrow>
   fst (donottrack func args s) = Inr None \<and> fst (wrapper_func func args s) = Inr None"
  by (simp add: donottrack_def wrapper_func_def)

text \<open>A wrapped function that returns 7: the wrapper returns \<open>None\<close>.\<close>

theorem wrapper_returns_None_witness:
  "returning_func 7 ((initial ())\<lparr>TRACK_FLAG := False\<rparr>) = (Inr 7, (initial ())\<lparr>TRACK_FLAG := False\<rparr>) \<and>
   fst (donottrack returning_func 7 (initial ())) = Inr None \<and>
   fst (wrapper_func returning_func 7 (initial ())) = Inr None"
proof -
  have call: "returning_func 7 ((initial ())\<lparr>TRACK_FLAG := False\<rparr>) = (Inr 7, (initial ())\<lparr>TRACK_FLAG := False\<rparr>)"
    by (simp add: returning_func_def)
  from wrapper_returns_None [of returning_func 7 "initial ()" 7 "(initial ())\<lparr>TRACK_FLAG := False\<rparr>"] call
  show ?thesis by simp
qed

text \<open>
  C10 (restored to enabled, not to the previous value). After a wrapped call that
  returns normally the flag is True, whatever it was before the call. Nested: when the
  body of a wrapped function calls a wrapped \<open>inner\<close> and then \<open>rest\<close>, and \<open>inner\<close>
  returns normally, \<open>rest\<close> runs from a state whose flag is True, although the outer
  wrapper has not finished.
\<close>

theorem donottrack_enables:
  "(func args (s\<lparr>TRACK_FLAG := False\<rparr>) = (Inr r, s1) \<longrightarrow>
      donottrack func args s = (Inr None, s1\<lparr>TRACK_FLAG := True\<rparr>) \<and>
      TRACK_FLAG (snd (donottrack func args s))) \<and>
   (inner args (s\<lparr>TRACK_FLAG := False\<rparr>) = (Inr r, s1) \<longrightarrow>
      donottrack (then_call (donottrack inner) rest) args s =
        (case rest args (s1\<lparr>TRACK_FLAG := True\<rparr>) of
           (Inl e, s2) \<Rightarrow> (Inl e, s2)
         | (Inr q, s2) \<Rightarrow> (Inr None, s2\<lparr>TRACK_FLAG := True\<rparr>)))"
  by (simp add: donottrack_def wrapper_func_def then_call_def)

text \<open>
  From a state with the flag False and from one with the flag True, the wrapped call ends
  with the flag True; a probe called directly under the wrapper sees False, and a probe
  called after a nested wrapped call sees True.
\<close>

theorem donottrack_enables_witness:
  "returning_func 7 ((initial False)\<lparr>TRACK_FLAG := False\<rparr>) = (Inr 7, (initial False)\<lparr>TRACK_FLAG := False\<rparr>) \<and>
   TRACK_FLAG (snd (donottrack returning_func 7 ((initial False)\<lparr>TRACK_FLAG := False\<rparr>))) \<and>
   TRACK_FLAG (snd (donottrack returning_func 7 (initial False))) \<and>
   host (snd (donottrack flag_probe 7 (initial False))) = False \<and>
   host (snd (donottrack (then_call (donottrack returning_func) flag_probe) 7 (initial False))) = True"
proof -
  have call: "returning_func 7 ((initial False)\<lparr>TRACK_FLAG := False\<rparr>) = (Inr 7, (initial False)\<lparr>TRACK_FLAG := False\<rparr>)"
    by (simp add: returning_func_def)
  have call2: "returning_func 7 ((initial False)\<lparr>TRACK_FLAG := False, TRACK_FLAG := False\<rparr>) = (Inr 7, (initial False)\<lparr>TRACK_FLAG := False\<rparr>)"
    by (simp add: returning_func_def)
  have probe: "host (snd (donottrack flag_probe 7 (initial False))) = False"
    by (simp add: donottrack_def wrapper_func_def flag_probe_def initial_def)
  from donottrack_enables [of returning_func 7 "initial False" 7 "(initial False)\<lparr>TRACK_FLAG := False\<rparr>" returning_func flag_probe]
    donottrack_enables [of returning_func 7 "(initial False)\<lparr>TRACK_FLAG := False\<rparr>" 7 "(initial False)\<lparr>TRACK_FLAG := False\<rparr>" returning_func flag_probe]
    call call2 probe
  show ?thesis by (simp add: flag_probe_def)
qed

text \<open>
  C2 (the flag is restored on every exit path). The claim is that \<open>TRACK_FLAG\<close> is True
  again after the wrapped call, also when the wrapped function raises. The wrapper
  assigns True after the call, and a wrapped function that returns ends with the flag
  True; but the assignment is a plain statement after the call, with no \<open>try/finally\<close>
  around it, so a wrapped function that raises leaves the flag False when the exception
  reaches the caller.
\<close>

theorem donottrack_raise_leaves_flag_disabled:
  "TRACK_FLAG (initial ()) \<and>
   fst (donottrack returning_func 0 (initial ())) = Inr None \<and>
   TRACK_FLAG (snd (donottrack returning_func 0 (initial ()))) \<and>
   fst (donottrack raising_func 0 (initial ())) = Inl (Exception ''boom'') \<and>
   \<not> TRACK_FLAG (snd (donottrack raising_func 0 (initial ())))"
  by (simp add: donottrack_def wrapper_func_def raising_func_def returning_func_def initial_def)

subsection \<open>Growth of the ledger\<close>

lemma entry_capture:
  "entry (snd (capture_call_stack c raw s)) k =
     (case temp_call_stack raw of
        Inl e \<Rightarrow> entry s k
      | Inr t \<Rightarrow> (if k = c \<and> t \<notin> set (entry s c) then entry s c @ [t] else entry s k))"
  by (simp add: capture_call_stack_def entry_ledger_record split: sum.splits)

lemma capture_frame:
  "TRACK_FLAG (snd (capture_call_stack c raw s)) = TRACK_FLAG s \<and>
   host (snd (capture_call_stack c raw s)) = host s"
  by (simp add: capture_call_stack_def ledger_record_frame split: sum.splits)

lemma capture_grows: "ledger_grows s (snd (capture_call_stack c raw s))"
  by (simp add: ledger_grows_def entry_capture split: sum.splits)

lemma capture_distinct:
  "ledger_distinct s \<Longrightarrow> ledger_distinct (snd (capture_call_stack c raw s))"
  by (simp add: ledger_distinct_def entry_capture split: sum.splits)

lemma ledger_grows_trans: "ledger_grows s t \<Longrightarrow> ledger_grows t u \<Longrightarrow> ledger_grows s u"
  unfolding ledger_grows_def by (blast intro: prefix_order.trans)

lemma captures_grows: "ledger_grows s (captures calls s)"
proof (induction calls arbitrary: s)
  case Nil
  show ?case by (simp add: ledger_grows_def)
next
  case (Cons call calls)
  obtain c raw where call: "call = (c, raw)" by (cases call)
  have "ledger_grows s (snd (capture_call_stack c raw s))" by (rule capture_grows)
  moreover have "ledger_grows (snd (capture_call_stack c raw s)) (captures calls (snd (capture_call_stack c raw s)))"
    by (rule Cons.IH)
  ultimately show ?case unfolding call by (simp add: ledger_grows_trans)
qed

lemma captures_distinct: "ledger_distinct s \<Longrightarrow> ledger_distinct (captures calls s)"
proof (induction calls arbitrary: s)
  case Nil
  then show ?case by simp
next
  case (Cons call calls)
  obtain c raw where call: "call = (c, raw)" by (cases call)
  from Cons.prems have "ledger_distinct (snd (capture_call_stack c raw s))" by (rule capture_distinct)
  then show ?case unfolding call by (simp add: Cons.IH)
qed

lemma initial_distinct: "ledger_distinct (initial h)"
  by (simp add: ledger_distinct_def entry_def initial_def)

lemma adapter_cases:
  "CallStackMixin_save c raw m a s =
     (case temp_call_stack raw of Inl e \<Rightarrow> (Inl e, s) | Inr t \<Rightarrow> m a (snd (capture_call_stack c raw s)))"
  "CallStackMixin_delete c raw m a s =
     (case temp_call_stack raw of Inl e \<Rightarrow> (Inl e, s) | Inr t \<Rightarrow> m a (snd (capture_call_stack c raw s)))"
  "CallStackManager_get_query_set c raw q s =
     (case temp_call_stack raw of Inl e \<Rightarrow> (Inl e, s) | Inr t \<Rightarrow> q (snd (capture_call_stack c raw s)))"
  by (simp_all add: CallStackMixin_save_def CallStackMixin_delete_def
      CallStackManager_get_query_set_def capture_call_stack_def split: sum.splits)

lemma via_grows:
  "\<forall>u. ledger_grows u (snd (f u)) \<Longrightarrow> ledger_grows s (snd (f (snd (capture_call_stack c raw s))))"
  using capture_grows [of s c raw] by (blast intro: ledger_grows_trans)

lemma via_distinct:
  "\<forall>u. ledger_distinct u \<longrightarrow> ledger_distinct (snd (f u)) \<Longrightarrow> ledger_distinct s \<Longrightarrow>
   ledger_distinct (snd (f (snd (capture_call_stack c raw s))))"
  using capture_distinct [of s c raw] by blast

text \<open>
  C4 (the invariant of the ledger). Every operation of the module keeps the ledger
  append only and free of duplicates. The record step, \<open>capture_call_stack\<close> and every
  sequence of captures leave each entry of the old state as an initial segment of the
  new entry (nothing is removed or reordered), and keep the stacks of every entry
  pairwise different when they were so before; every state reached from the initial
  one by captures has no duplicates. The adapters change the ledger only through
  \<open>capture_call_stack\<close> and the method of the superclass, so they keep both properties
  when that method does, and \<open>wrapper_func\<close> leaves the ledger as the wrapped function
  left it.
\<close>

theorem ledger_invariant:
  "ledger_grows s (snd (ledger_record c t s)) \<and>
   (ledger_distinct s \<longrightarrow> ledger_distinct (snd (ledger_record c t s))) \<and>
   ledger_grows s (snd (capture_call_stack c raw s)) \<and>
   (ledger_distinct s \<longrightarrow> ledger_distinct (snd (capture_call_stack c raw s))) \<and>
   ledger_grows s (captures calls s) \<and>
   (ledger_distinct s \<longrightarrow> ledger_distinct (captures calls s)) \<and>
   ledger_distinct (captures calls (initial h)) \<and>
   ((\<forall>u. ledger_grows u (snd (m a u))) \<longrightarrow>
      ledger_grows s (snd (CallStackMixin_save c raw m a s)) \<and>
      ledger_grows s (snd (CallStackMixin_delete c raw m a s))) \<and>
   ((\<forall>u. ledger_distinct u \<longrightarrow> ledger_distinct (snd (m a u))) \<and> ledger_distinct s \<longrightarrow>
      ledger_distinct (snd (CallStackMixin_save c raw m a s)) \<and>
      ledger_distinct (snd (CallStackMixin_delete c raw m a s))) \<and>
   ((\<forall>u. ledger_grows u (snd (q u))) \<longrightarrow>
      ledger_grows s (snd (CallStackManager_get_query_set c raw q s))) \<and>
   ((\<forall>u. ledger_distinct u \<longrightarrow> ledger_distinct (snd (q u))) \<and> ledger_distinct s \<longrightarrow>
      ledger_distinct (snd (CallStackManager_get_query_set c raw q s))) \<and>
   entry (snd (wrapper_func func args s)) = entry (snd (func args (s\<lparr>TRACK_FLAG := False\<rparr>)))"
proof -
  have rec_grows: "ledger_grows s (snd (ledger_record c t s))"
    by (simp add: ledger_grows_def entry_ledger_record)
  have rec_distinct: "ledger_distinct s \<longrightarrow> ledger_distinct (snd (ledger_record c t s))"
    by (simp add: ledger_distinct_def entry_ledger_record)
  have grows_refl: "ledger_grows s s"
    by (simp add: ledger_grows_def)
  have save_grows: "(\<forall>u. ledger_grows u (snd (m a u))) \<longrightarrow>
      ledger_grows s (snd (CallStackMixin_save c raw m a s)) \<and>
      ledger_grows s (snd (CallStackMixin_delete c raw m a s))"
    using via_grows [of "m a" s c raw] grows_refl by (simp add: adapter_cases split: sum.splits)
  have save_distinct: "(\<forall>u. ledger_distinct u \<longrightarrow> ledger_distinct (snd (m a u))) \<and> ledger_distinct s \<longrightarrow>
      ledger_distinct (snd (CallStackMixin_save c raw m a s)) \<and>
      ledger_distinct (snd (CallStackMixin_delete c raw m a s))"
    using via_distinct [of "m a" s c raw] by (simp add: adapter_cases split: sum.splits)
  have query_grows: "(\<forall>u. ledger_grows u (snd (q u))) \<longrightarrow>
      ledger_grows s (snd (CallStackManager_get_query_set c raw q s))"
    using via_grows [of q s c raw] grows_refl by (simp add: adapter_cases split: sum.splits)
  have query_distinct: "(\<forall>u. ledger_distinct u \<longrightarrow> ledger_distinct (snd (q u))) \<and> ledger_distinct s \<longrightarrow>
      ledger_distinct (snd (CallStackManager_get_query_set c raw q s))"
    using via_distinct [of q s c raw] by (simp add: adapter_cases split: sum.splits)
  have wrapper: "entry (snd (wrapper_func func args s)) = entry (snd (func args (s\<lparr>TRACK_FLAG := False\<rparr>)))"
    by (rule ext) (simp add: wrapper_func_def entry_def split: prod.splits sum.splits)
  show ?thesis
    using rec_grows rec_distinct capture_grows [of s c raw] capture_distinct [of s c raw]
      captures_grows [of s calls] captures_distinct [of s calls]
      captures_distinct [OF initial_distinct, of calls h]
      save_grows save_distinct query_grows query_distinct wrapper
    by blast
qed


text \<open>
  Two captures from the same call site for Widget, from the initial state, and a save
  through the mixin: one stack in the entry, no duplicates.
\<close>

theorem ledger_invariant_witness:
  "ledger_distinct (initial ([]::nat list)) \<and>
   ledger_grows (initial []) (snd (capture_call_stack ''Widget'' widget_site (initial ([]::nat list)))) \<and>
   ledger_distinct (snd (capture_call_stack ''Widget'' widget_site (initial ([]::nat list)))) \<and>
   ledger_distinct (captures [(''Widget'', widget_site), (''Widget'', widget_site)] (initial ([]::nat list))) \<and>
   ledger_grows (initial []) (snd (CallStackMixin_save ''Widget'' widget_site storing_method 5 (initial []))) \<and>
   ledger_distinct (snd (CallStackMixin_save ''Widget'' widget_site storing_method 5 (initial []))) \<and>
   ledger_distinct (snd (CallStackManager_get_query_set ''Widget'' widget_site (storing_method 5) (initial []))) \<and>
   entry (captures [(''Widget'', widget_site), (''Widget'', widget_site)] (initial ([]::nat list))) ''Widget''
     = [[(''/lms/models.py'', ''2'', ''save'')]]"
proof -
  have start: "ledger_distinct (initial ([]::nat list))"
    by (rule initial_distinct)
  have m_grows: "\<forall>u. ledger_grows u (snd (storing_method 5 u))"
    by (simp add: storing_method_def ledger_grows_def entry_def)
  have m_distinct: "\<forall>u. ledger_distinct u \<longrightarrow> ledger_distinct (snd (storing_method 5 u))"
    by (simp add: storing_method_def ledger_distinct_def entry_def)
  have twice: "entry (captures [(''Widget'', widget_site), (''Widget'', widget_site)] (initial ([]::nat list))) ''Widget''
     = [[(''/lms/models.py'', ''2'', ''save'')]]"
    by (simp add: entry_capture widget_site_stack) (simp add: entry_def initial_def)
  from ledger_invariant [of "initial ([]::nat list)" "''Widget''" "[]" widget_site
      "[(''Widget'', widget_site), (''Widget'', widget_site)]" "[]" storing_method 5 "storing_method 5"
      returning_func 0]
    start m_grows m_distinct twice
  show ?thesis by blast
qed

subsection \<open>Frames that do not parse\<close>

lemma str_split_nonempty: "str_split sep s \<noteq> []"
  by (induction s) (auto split: list.splits)

lemma length_str_split: "length (str_split sep s) = Suc (length (filter (\<lambda>c. c = sep) s))"
proof (induction s)
  case Nil
  show ?case by simp
next
  case (Cons c cs)
  then show ?case using str_split_nonempty [of sep cs]
    by (cases "str_split sep cs") auto
qed

lemma commas_replace_newline: "commas (replace_newline s) = commas s"
proof -
  have "filter (\<lambda>c. c = CHR '','') (filter (\<lambda>c. c \<noteq> CHR 0x0A) s) = filter (\<lambda>c. c = CHR '','') s"
    by (induction s) auto
  then show ?thesis by (simp add: commas_def replace_newline_def)
qed

lemma frame_tuple_few: "commas frame < 2 \<Longrightarrow> frame_tuple frame = Inl IndexError"
  by (auto simp: frame_tuple_def getitem_def length_str_split commas_def)

lemma frame_tuple_enough: "2 \<le> commas frame \<Longrightarrow> \<exists>t. frame_tuple frame = Inr t"
  by (auto simp: frame_tuple_def getitem_def length_str_split commas_def)

lemma frame_tuple_error: "frame_tuple frame = Inl e \<Longrightarrow> e = IndexError"
  by (auto simp: frame_tuple_def getitem_def split: if_splits)

lemma comprehension_error: "comprehension frames = Inl e \<Longrightarrow> e = IndexError"
  by (induction frames) (auto split: if_splits sum.splits dest: frame_tuple_error)

lemma comprehension_few:
  "frame \<in> set frames \<Longrightarrow> \<not> any_match frame \<Longrightarrow> commas frame < 2 \<Longrightarrow>
   comprehension frames = Inl IndexError"
proof (induction frames)
  case Nil
  then show ?case by simp
next
  case (Cons f fs)
  show ?case
  proof (cases "f = frame")
    case True
    with Cons.prems show ?thesis by (simp add: frame_tuple_few)
  next
    case False
    with Cons have rest: "comprehension fs = Inl IndexError" by simp
    then show ?thesis
      by (auto split: sum.splits dest: frame_tuple_error)
  qed
qed

lemma comprehension_enough:
  "\<forall>frame \<in> set frames. 2 \<le> commas frame \<Longrightarrow> \<exists>st. comprehension frames = Inr st"
proof (induction frames)
  case Nil
  show ?case by simp
next
  case (Cons f fs)
  then obtain st where "comprehension fs = Inr st" by auto
  moreover from Cons.prems obtain t where "frame_tuple f = Inr t"
    using frame_tuple_enough [of f] by auto
  ultimately show ?case by simp
qed

lemma temp_call_stack_few:
  assumes "line \<in> set format_stack" "\<not> any_match (replace_newline line)" "commas line < 2"
  shows "temp_call_stack format_stack = Inl IndexError"
  unfolding temp_call_stack_def
  by (rule comprehension_few [of "replace_newline line"]) (use assms in \<open>simp_all add: commas_replace_newline\<close>)

text \<open>
  C7, amended (a parse failure). The comprehension raises exactly \<open>IndexError\<close>, and it does
  so whenever some frame line that no expression of \<open>EXCLUDE\<close> matches has fewer than two
  commas. The exception leaves \<open>capture_call_stack\<close> and the adapter that called it:
  \<open>save\<close>, \<open>delete\<close> and \<open>get_query_set\<close> raise \<open>IndexError\<close>, the method of the superclass
  is not called, and the state is as before the call: nothing is recorded and nothing
  is logged.
\<close>

theorem parse_failure_propagates:
  assumes "line \<in> set format_stack"
    and "\<not> any_match (replace_newline line)"
    and "commas line < 2"
  shows "capture_call_stack c format_stack s = (Inl IndexError, s) \<and>
         CallStackMixin_save c format_stack m a s = (Inl IndexError, s) \<and>
         CallStackMixin_delete c format_stack m a s = (Inl IndexError, s) \<and>
         CallStackManager_get_query_set c format_stack q s = (Inl IndexError, s)"
proof -
  from assms have "temp_call_stack format_stack = Inl IndexError"
    by (intro temp_call_stack_few [of line])
  then show ?thesis
    by (simp add: capture_call_stack_def adapter_cases)
qed

text \<open>A formatted stack whose only line has no comma.\<close>

theorem parse_failure_propagates_witness:
  "capture_call_stack ''Widget'' malformed_site (initial ([]::nat list)) = (Inl IndexError, initial []) \<and>
   CallStackMixin_save ''Widget'' malformed_site storing_method 5 (initial []) = (Inl IndexError, initial []) \<and>
   CallStackMixin_delete ''Widget'' malformed_site storing_method 5 (initial []) = (Inl IndexError, initial []) \<and>
   CallStackManager_get_query_set ''Widget'' malformed_site (storing_method 5) (initial []) = (Inl IndexError, initial [])"
proof -
  have member: "''not a frame line'' \<in> set malformed_site"
    by (simp add: malformed_site_def)
  have kept: "\<not> any_match (replace_newline ''not a frame line'')"
    by (simp add: eval_defs)
  have few: "commas ''not a frame line'' < 2"
    by (simp add: commas_def)
  from parse_failure_propagates [OF member kept few, of "''Widget''" "initial ([]::nat list)" storing_method 5 "storing_method 5"]
  show ?thesis .
qed

text \<open>
  C7 as stated fails: with a line that is not in the layout, \<open>save\<close> through the mixin
  raises \<open>IndexError\<close> and the method of the superclass, which alone would return 6 and
  store its argument, is never run; nothing is logged either.
\<close>

theorem parse_failure_counterexample:
  "\<not> any_match (replace_newline ''not a frame line'') \<and>
   fst (storing_method 5 (initial [])) = Inr 6 \<and>
   host (snd (storing_method 5 (initial []))) = [5] \<and>
   fst (CallStackMixin_save ''Widget'' malformed_site storing_method 5 (initial [])) = Inl IndexError \<and>
   host (snd (CallStackMixin_save ''Widget'' malformed_site storing_method 5 (initial []))) = [] \<and>
   log_info (snd (CallStackMixin_save ''Widget'' malformed_site storing_method 5 (initial []))) = []"
  by (simp add: eval_defs malformed_site_def CallStackMixin_save_def capture_call_stack_def
      storing_method_def initial_def)

subsection \<open>The adapters\<close>

lemma commas_format_frame: "2 \<le> commas (replace_newline (format_frame path n context))"
  by (simp add: commas_replace_newline) (simp add: commas_def format_frame_def)

lemma temp_call_stack_format_list: "\<exists>st. temp_call_stack (format_list frames) = Inr st"
  unfolding temp_call_stack_def
  by (rule comprehension_enough) (auto simp: format_list_def commas_format_frame)

lemma capture_format_list: "fst (capture_call_stack c (format_list frames) s) = Inr ()"
  using temp_call_stack_format_list [of frames] by (auto simp: capture_call_stack_def)

lemma capture_returns:
  "fst (capture_call_stack c raw s) = Inr () \<Longrightarrow> \<exists>t. temp_call_stack raw = Inr t"
  by (simp add: capture_call_stack_def split: sum.splits)

lemma ledger_blind_capture:
  "ledger_blind f \<Longrightarrow> fst (f (snd (capture_call_stack c raw s))) = fst (f s)"
  unfolding ledger_blind_def using capture_frame [of c raw s] by blast

text \<open>
  C8 (the adapters are transparent). For every formatted stack in the layout of the
  introspection facility, every class name, every method of the superclass and every
  argument: \<open>capture_call_stack\<close> returns normally and changes neither the host state nor
  the flag, and \<open>save\<close>, \<open>delete\<close> and \<open>get_query_set\<close> then are exactly the call of the
  method of the superclass: the same value when it returns, the same exception when it
  raises, the same final state. When the outcome of that method does not depend on the
  ledger or the log, it is the outcome of calling the method directly, without the
  adapter. The same equations hold for any formatted stack on which the capture
  returns normally.
\<close>

theorem adapter_transparency:
  "fst (capture_call_stack c (format_list frames) s) = Inr () \<and>
   host (snd (capture_call_stack c (format_list frames) s)) = host s \<and>
   TRACK_FLAG (snd (capture_call_stack c (format_list frames) s)) = TRACK_FLAG s \<and>
   CallStackMixin_save c (format_list frames) m a s
     = m a (snd (capture_call_stack c (format_list frames) s)) \<and>
   CallStackMixin_delete c (format_list frames) m a s
     = m a (snd (capture_call_stack c (format_list frames) s)) \<and>
   CallStackManager_get_query_set c (format_list frames) q s
     = q (snd (capture_call_stack c (format_list frames) s)) \<and>
   (ledger_blind (m a) \<longrightarrow>
      fst (CallStackMixin_save c (format_list frames) m a s) = fst (m a s) \<and>
      fst (CallStackMixin_delete c (format_list frames) m a s) = fst (m a s)) \<and>
   (ledger_blind q \<longrightarrow>
      fst (CallStackManager_get_query_set c (format_list frames) q s) = fst (q s)) \<and>
   (fst (capture_call_stack c raw s) = Inr () \<longrightarrow>
      CallStackMixin_save c raw m a s = m a (snd (capture_call_stack c raw s)) \<and>
      CallStackMixin_delete c raw m a s = m a (snd (capture_call_stack c raw s)) \<and>
      CallStackManager_get_query_set c raw q s = q (snd (capture_call_stack c raw s)))"
proof -
  obtain st where st: "temp_call_stack (format_list frames) = Inr st"
    using temp_call_stack_format_list by blast
  have adapters:
    "CallStackMixin_save c (format_list frames) m a s = m a (snd (capture_call_stack c (format_list frames) s))"
    "CallStackMixin_delete c (format_list frames) m a s = m a (snd (capture_call_stack c (format_list frames) s))"
    "CallStackManager_get_query_set c (format_list frames) q s = q (snd (capture_call_stack c (format_list frames) s))"
    by (simp_all add: adapter_cases st)
  have blind_m: "ledger_blind (m a) \<longrightarrow>
      fst (CallStackMixin_save c (format_list frames) m a s) = fst (m a s) \<and>
      fst (CallStackMixin_delete c (format_list frames) m a s) = fst (m a s)"
    by (simp add: adapters ledger_blind_capture)
  have blind_q: "ledger_blind q \<longrightarrow>
      fst (CallStackManager_get_query_set c (format_list frames) q s) = fst (q s)"
    by (simp add: adapters ledger_blind_capture)
  have general: "fst (capture_call_stack c raw s) = Inr () \<longrightarrow>
      CallStackMixin_save c raw m a s = m a (snd (capture_call_stack c raw s)) \<and>
      CallStackMixin_delete c raw m a s = m a (snd (capture_call_stack c raw s)) \<and>
      CallStackManager_get_query_set c raw q s = q (snd (capture_call_stack c raw s))"
    by (auto simp: adapter_cases dest: capture_returns)
  show ?thesis
    using capture_format_list [of c frames s] capture_frame [of c "format_list frames" s]
      adapters blind_m blind_q general
    by blast
qed

text \<open>
  A method that returns 6 and stores its argument, and a method that raises: through the
  adapters the value, the stored argument and the exception are those of the direct call.
\<close>

theorem adapter_transparency_witness:
  "fst (storing_method 5 (initial [])) = Inr 6 \<and>
   fst (CallStackMixin_save ''Widget'' (format_list [(''/lms/models.py'', ''42'', ''save'')]) storing_method 5 (initial [])) = Inr 6 \<and>
   host (snd (CallStackMixin_save ''Widget'' (format_list [(''/lms/models.py'', ''42'', ''save'')]) storing_method 5 (initial []))) = [5] \<and>
   fst (failing_method 5 (initial [])) = Inl (Exception ''database'') \<and>
   fst (CallStackMixin_delete ''Widget'' (format_list [(''/lms/models.py'', ''42'', ''save'')]) failing_method 5 (initial []))
     = Inl (Exception ''database'') \<and>
   fst (CallStackManager_get_query_set ''Widget'' (format_list [(''/lms/models.py'', ''42'', ''save'')]) (storing_method 5) (initial []))
     = Inr 6"
proof -
  have blind_s: "ledger_blind (storing_method 5)"
    by (simp add: ledger_blind_def storing_method_def)
  have blind_f: "ledger_blind (failing_method 5)"
    by (simp add: ledger_blind_def failing_method_def)
  have direct: "fst (storing_method 5 (initial [])) = Inr 6"
    "fst (failing_method 5 (initial [])) = Inl (Exception ''database'')"
    by (simp_all add: storing_method_def failing_method_def)
  have stored: "host (snd (storing_method 5 t)) = 5 # host t" for t
    by (simp add: storing_method_def)
  have start: "host (initial ([]::nat list)) = []"
    by (simp add: initial_def)
  note stored_case = adapter_transparency [of "''Widget''" "[(''/lms/models.py'', ''42'', ''save'')]" "initial []"
      storing_method 5 "storing_method 5" widget_site]
  note failing_case = adapter_transparency [of "''Widget''" "[(''/lms/models.py'', ''42'', ''save'')]" "initial []"
      failing_method 5 "failing_method 5" widget_site]
  from stored_case blind_s
  have save_value: "fst (CallStackMixin_save ''Widget'' (format_list [(''/lms/models.py'', ''42'', ''save'')]) storing_method 5 (initial []))
      = fst (storing_method 5 (initial []))"
    by blast
  from stored_case blind_s
  have query_value: "fst (CallStackManager_get_query_set ''Widget'' (format_list [(''/lms/models.py'', ''42'', ''save'')]) (storing_method 5) (initial []))
      = fst (storing_method 5 (initial []))"
    by blast
  from failing_case blind_f
  have delete_value: "fst (CallStackMixin_delete ''Widget'' (format_list [(''/lms/models.py'', ''42'', ''save'')]) failing_method 5 (initial []))
      = fst (failing_method 5 (initial []))"
    by blast
  from stored_case
  have "host (snd (CallStackMixin_save ''Widget'' (format_list [(''/lms/models.py'', ''42'', ''save'')]) storing_method 5 (initial [])))
      = 5 # host (snd (capture_call_stack ''Widget'' (format_list [(''/lms/models.py'', ''42'', ''save'')]) (initial ([]::nat list))))"
    by (simp add: stored)
  also from stored_case
  have "host (snd (capture_call_stack ''Widget'' (format_list [(''/lms/models.py'', ''42'', ''save'')]) (initial ([]::nat list)))) = []"
    by (simp add: start)
  finally have save_host: "host (snd (CallStackMixin_save ''Widget'' (format_list [(''/lms/models.py'', ''42'', ''save'')]) storing_method 5 (initial [])))
      = [5]" .
  show ?thesis
    using save_value query_value delete_value save_host direct by simp
qed

subsection \<open>The filter and the comprehension\<close>

lemma comprehension_filter:
  "comprehension frames = Inr st \<Longrightarrow>
   map Inr st = map frame_tuple (filter (\<lambda>frame. \<not> any_match frame) frames)"
proof (induction frames arbitrary: st)
  case Nil
  then show ?case by simp
next
  case (Cons f fs)
  show ?case
  proof (cases "any_match f")
    case True
    with Cons show ?thesis by simp
  next
    case False
    with Cons.prems obtain t ts where parts: "frame_tuple f = Inr t" "comprehension fs = Inr ts" "st = t # ts"
      by (auto split: sum.splits)
    with Cons.IH [of ts] False show ?thesis by simp
  qed
qed

lemma comprehension_all_excluded:
  "\<forall>frame \<in> set frames. any_match frame \<Longrightarrow> comprehension frames = Inr []"
  by (induction frames) simp_all

lemma match_lits:
  "match_here p False rest \<Longrightarrow> w \<noteq> [] \<Longrightarrow> match_here (map Lit w @ p) at_start (w @ rest)"
proof (induction w arbitrary: at_start)
  case Nil
  then show ?case by simp
next
  case (Cons x xs)
  then show ?case by (cases xs) simp_all
qed

lemma dotstar_skip:
  "CHR 0x0A \<notin> set before \<Longrightarrow> (\<And>b. match_here p b rest) \<Longrightarrow>
   match_here (DotStar # p) at_start (before @ rest)"
proof (induction before arbitrary: at_start)
  case Nil
  then show ?case by (cases rest) simp_all
next
  case (Cons x xs)
  then show ?case by auto
qed

lemma dotstar_eol: "CHR 0x0A \<notin> set s \<Longrightarrow> match_here [DotStar, Eol] at_start s"
  by (induction s arbitrary: at_start) auto

lemma contains_matches:
  assumes "CHR 0x0A \<notin> set before" "CHR 0x0A \<notin> set after" "w \<noteq> []"
  shows "re_match (Bol # DotStar # map Lit w @ [DotStar, Eol]) (before @ w @ after)"
proof -
  have "match_here (map Lit w @ [DotStar, Eol]) b (w @ after)" for b
    using assms by (intro match_lits dotstar_eol)
  then have "match_here (DotStar # map Lit w @ [DotStar, Eol]) True (before @ w @ after)"
    using assms(1) by (intro dotstar_skip)
  then show ?thesis by (simp add: re_match_def)
qed

lemma compile_self: "re_compile ''^.*call_stack_manager.*$'' =
    Bol # DotStar # map Lit ''call_stack_manager'' @ [DotStar, Eol]"
  by simp

lemma self_excluded: "any_match (replace_newline (before @ ''call_stack_manager'' @ after))"
proof -
  have shape: "replace_newline (before @ ''call_stack_manager'' @ after)
      = replace_newline before @ ''call_stack_manager'' @ replace_newline after"
    by (simp add: replace_newline_def)
  have "re_match (re_compile ''^.*call_stack_manager.*$'')
      (replace_newline before @ ''call_stack_manager'' @ replace_newline after)"
    unfolding compile_self by (rule contains_matches) (simp_all add: replace_newline_def)
  then show ?thesis
    unfolding shape any_match_def REGULAR_EXPS_def EXCLUDE_def by (simp del: re_compile.simps)
qed

text \<open>
  C5 (the normalizer). When the comprehension returns a stack, its frames are the tuples
  of exactly those lines (newlines removed) that no expression of \<open>EXCLUDE\<close> matches, in
  their original order; a line is matched when some expression of \<open>REGULAR_EXPS\<close>
  matches it. A line whose path names the module itself, \<open>call_stack_manager\<close>, is
  always matched, whatever its directory, extension, line number and context, and so
  is any text that contains that name. A formatted stack whose lines are all matched
  gives the empty stack, the capture returns normally, and the empty stack is recorded
  as new when the entry of the class does not hold it yet.
\<close>

theorem normalizer_filters:
  "(temp_call_stack format_stack = Inr st \<longrightarrow>
      map Inr st = map frame_tuple
        (filter (\<lambda>frame. \<not> any_match frame) (map replace_newline format_stack))) \<and>
   any_match frame = (\<exists>reg \<in> set REGULAR_EXPS. re_match reg frame) \<and>
   any_match (replace_newline (format_frame (dir @ ''call_stack_manager'' @ ext) n context)) \<and>
   any_match (replace_newline (before @ ''call_stack_manager'' @ after)) \<and>
   ((\<forall>line \<in> set format_stack. any_match (replace_newline line)) \<longrightarrow>
      temp_call_stack format_stack = Inr [] \<and>
      fst (capture_call_stack c format_stack s) = Inr () \<and>
      ([] \<notin> set (entry s c) \<longrightarrow>
         fst (ledger_record c [] s) \<and>
         entry (snd (capture_call_stack c format_stack s)) c = entry s c @ [[]]))"
proof -
  have kept: "temp_call_stack format_stack = Inr st \<longrightarrow>
      map Inr st = map frame_tuple
        (filter (\<lambda>frame. \<not> any_match frame) (map replace_newline format_stack))"
    by (simp add: temp_call_stack_def comprehension_filter)
  have any: "any_match frame = (\<exists>reg \<in> set REGULAR_EXPS. re_match reg frame)"
    by (simp add: any_match_def list_ex_iff)
  have "format_frame (dir @ ''call_stack_manager'' @ ext) n context
      = (''  File '' @ [CHR 0x22] @ dir) @ ''call_stack_manager'' @
        (ext @ [CHR 0x22] @ '', line '' @ n @ '', in '' @ context @ [CHR 0x0A])"
    by (simp add: format_frame_def)
  then have own: "any_match (replace_newline (format_frame (dir @ ''call_stack_manager'' @ ext) n context))"
    by (simp only: self_excluded)
  have empty: "temp_call_stack format_stack = Inr [] \<and>
      fst (capture_call_stack c format_stack s) = Inr () \<and>
      ([] \<notin> set (entry s c) \<longrightarrow>
         fst (ledger_record c [] s) \<and>
         entry (snd (capture_call_stack c format_stack s)) c = entry s c @ [[]])"
    if all: "\<forall>line \<in> set format_stack. any_match (replace_newline line)"
  proof -
    from all have t: "temp_call_stack format_stack = Inr []"
      by (simp add: temp_call_stack_def comprehension_all_excluded)
    then show ?thesis
      by (simp add: capture_call_stack_def fst_ledger_record entry_ledger_record)
  qed
  from kept any own self_excluded [of before after] empty show ?thesis by blast
qed


text \<open>
  Three frames with the middle one under python2.7: the first and the third remain, in
  this order. A frame of the module itself is matched, and a stack of matched frames
  only is recorded for Widget as the empty stack.
\<close>

theorem normalizer_filters_witness:
  "temp_call_stack three_frames = Inr [(''/lms/a.py'', [], ''f''), (''/lms/b.py'', ''23'', ''h'')] \<and>
   map Inr [(''/lms/a.py'', [], ''f''), (''/lms/b.py'', ''23'', ''h'')]
     = map frame_tuple (filter (\<lambda>frame. \<not> any_match frame) (map replace_newline three_frames)) \<and>
   any_match (replace_newline (format_frame (''/lib/'' @ ''call_stack_manager'' @ ''.py'') ''95'' ''save'')) \<and>
   temp_call_stack excluded_only = Inr [] \<and>
   fst (capture_call_stack ''Widget'' excluded_only (initial ())) = Inr () \<and>
   fst (ledger_record ''Widget'' [] (initial ())) \<and>
   entry (snd (capture_call_stack ''Widget'' excluded_only (initial ()))) ''Widget'' = [[]]"
proof -
  have three: "temp_call_stack three_frames = Inr [(''/lms/a.py'', [], ''f''), (''/lms/b.py'', ''23'', ''h'')]"
    by (simp add: three_frames_def eval_defs)
  have all: "\<forall>line \<in> set excluded_only. any_match (replace_newline line)"
    by (simp add: excluded_only_def eval_defs)
  have fresh: "entry (initial ()) ''Widget'' = []"
    by (simp add: entry_def initial_def)
  then have new: "[] \<notin> set (entry (initial ()) ''Widget'')"
    by simp
  note kept_case = normalizer_filters [of three_frames "[(''/lms/a.py'', [], ''f''), (''/lms/b.py'', ''23'', ''h'')]"
      "[]" "''/lib/''" "''.py''" "''95''" "''save''" "[]" "[]" "''Widget''" "initial ()"]
  note empty_case = normalizer_filters [of excluded_only "[]"
      "[]" "''/lib/''" "''.py''" "''95''" "''save''" "[]" "[]" "''Widget''" "initial ()"]
  from kept_case three
  have kept: "map Inr [(''/lms/a.py'', [], ''f''), (''/lms/b.py'', ''23'', ''h'')]
     = map frame_tuple (filter (\<lambda>frame. \<not> any_match frame) (map replace_newline three_frames))"
    by blast
  from kept_case
  have own: "any_match (replace_newline (format_frame (''/lib/'' @ ''call_stack_manager'' @ ''.py'') ''95'' ''save''))"
    by blast
  from empty_case all new
  have empty: "temp_call_stack excluded_only = Inr [] \<and>
      fst (capture_call_stack ''Widget'' excluded_only (initial ())) = Inr () \<and>
      fst (ledger_record ''Widget'' [] (initial ())) \<and>
      entry (snd (capture_call_stack ''Widget'' excluded_only (initial ()))) ''Widget''
        = entry (initial ()) ''Widget'' @ [[]]"
    by blast
  from three kept own empty fresh show ?thesis by simp
qed

subsection \<open>The fields of a formatted frame\<close>

lemma str_split_plain: "sep \<notin> set a \<Longrightarrow> str_split sep a = [a]"
  by (induction a) auto

lemma str_split_piece: "sep \<notin> set a \<Longrightarrow> str_split sep (a @ sep # rest) = a # str_split sep rest"
  by (induction a) auto

lemma str_strip_keep:
  "\<not> isspace x \<Longrightarrow> s = [] \<or> \<not> isspace (last s) \<Longrightarrow>
   str_strip (x # s) = x # s"
proof (cases s rule: rev_cases)
  case Nil
  assume "\<not> isspace x"
  with Nil show ?thesis by (simp add: str_strip_def)
next
  case (snoc ys y)
  assume "\<not> isspace x" "s = [] \<or> \<not> isspace (last s)"
  with snoc show ?thesis by (simp add: str_strip_def)
qed

lemma str_strip_keep_append:
  "\<not> isspace x \<Longrightarrow> t \<noteq> [] \<Longrightarrow> \<not> isspace (last t) \<Longrightarrow>
   str_strip (x # pre @ t) = x # pre @ t"
  by (rule str_strip_keep) simp_all

lemma str_strip_leading: "isspace x \<Longrightarrow> str_strip (x # s) = str_strip s"
  by (simp add: str_strip_def)

text \<open>
  The tuple of a formatted frame whose fields hold no comma and no newline, and whose
  line number and context are not empty and do not end in whitespace: the path and the
  context are returned as they are, the line number without its first character.
\<close>

lemma frame_tuple_format_frame:
  assumes path: "CHR '','' \<notin> set path" "CHR 0x0A \<notin> set path"
    and n: "CHR '','' \<notin> set n" "CHR 0x0A \<notin> set n" "n \<noteq> []" "\<not> isspace (last n)"
    and ctx: "CHR '','' \<notin> set context" "CHR 0x0A \<notin> set context"
      "context \<noteq> []" "\<not> isspace (last context)"
  shows "frame_tuple (replace_newline (format_frame path n context)) = Inr (path, drop 1 n, context)"
proof -
  have keep: "filter (\<lambda>c. c \<noteq> CHR 0x0A) s = s" if "CHR 0x0A \<notin> set s" for s :: string
    using that by (induction s) auto
  have frame: "replace_newline (format_frame path n context)
      = (''  File '' @ [CHR 0x22] @ path @ [CHR 0x22]) @ CHR '','' # ('' line '' @ n) @ CHR '','' # ('' in '' @ context)"
    using path n ctx by (simp add: replace_newline_def format_frame_def keep)
  have pieces: "str_split CHR '','' (replace_newline (format_frame path n context))
      = [''  File '' @ [CHR 0x22] @ path @ [CHR 0x22], '' line '' @ n, '' in '' @ context]"
    unfolding frame using path n ctx
    by (simp add: str_split_piece str_split_plain del: append_assoc)
  have p0: "str_strip (''  File '' @ [CHR 0x22] @ path @ [CHR 0x22]) = ''File '' @ [CHR 0x22] @ path @ [CHR 0x22]"
    by (simp add: str_strip_leading isspace_def) (simp add: str_strip_keep isspace_def)
  have letter: "\<not> isspace CHR ''l''" "\<not> isspace CHR ''i''" "isspace CHR '' ''"
    by (simp_all add: isspace_def)
  have "str_strip ('' line '' @ n) = str_strip (CHR ''l'' # ''ine '' @ n)"
    by (simp add: str_strip_leading letter)
  also have "\<dots> = CHR ''l'' # ''ine '' @ n"
    using n letter by (intro str_strip_keep_append)
  finally have p1: "str_strip ('' line '' @ n) = ''line '' @ n" by simp
  have "str_strip ('' in '' @ context) = str_strip (CHR ''i'' # ''n '' @ context)"
    by (simp add: str_strip_leading letter)
  also have "\<dots> = CHR ''i'' # ''n '' @ context"
    using ctx letter by (intro str_strip_keep_append)
  finally have p2: "str_strip ('' in '' @ context) = ''in '' @ context" by simp
  have first: "slice_from_to_last 6 (''File '' @ [CHR 0x22] @ path @ [CHR 0x22]) = path"
    by (simp add: slice_from_to_last_def butlast_append)
  show ?thesis
    by (simp add: frame_tuple_def pieces getitem_def p0 p1 p2 first slice_from_def del: append.simps)
qed

end
